theory Spec2Isabelle
  imports Main
begin

section \<open>Voxel arrays\<close>

text \<open>
  The voxel data of an image is a numpy array: a shape and a buffer of elements in
  row-major (C) order. The element type is left open; only its multiplication is used.
\<close>

record 'a ndarray =
  shape :: "nat list"
  flat :: "'a list"

definition wf_array :: "'a ndarray \<Rightarrow> bool" where
  "wf_array a \<longleftrightarrow> length (flat a) = prod_list (shape a)"

text \<open>Exceptions that the program can raise, as values.\<close>

datatype error =
    ValueError
  | IndexError
  | FileNotFoundError
  | FileExistsError
  | ImageFileError
  | RegistrationError
  | MissingAssetError
  | OutputExistsError

text \<open>Row-major position of a multi-index, and the multi-index of a position.\<close>

fun offset :: "nat list \<Rightarrow> nat list \<Rightarrow> nat" where
  "offset (n # s) (i # idx) = i * prod_list s + offset s idx"
| "offset _ _ = 0"

fun unravel :: "nat list \<Rightarrow> nat \<Rightarrow> nat list" where
  "unravel [] k = []"
| "unravel (n # s) k = (k div prod_list s) # unravel s (k mod prod_list s)"

text \<open>\<open>a[idx]\<close> for an index inside the shape of \<open>a\<close>.\<close>

definition item :: "'a ndarray \<Rightarrow> nat list \<Rightarrow> 'a" where
  "item a idx = flat a ! offset (shape a) idx"

text \<open>
  numpy's broadcasting rule: the shapes are aligned at their last axis; two axis lengths
  are compatible when they are equal or one of them is 1, and the result takes the other
  one; a shorter shape is padded on the left. Incompatible axes raise ValueError.
\<close>

fun broadcast_rev :: "nat list \<Rightarrow> nat list \<Rightarrow> nat list option" where
  "broadcast_rev [] ys = Some ys"
| "broadcast_rev xs [] = Some xs"
| "broadcast_rev (x # xs) (y # ys) =
     (if x = y \<or> y = 1 then map_option ((#) x) (broadcast_rev xs ys)
      else if x = 1 then map_option ((#) y) (broadcast_rev xs ys)
      else None)"

definition broadcast_shapes :: "nat list \<Rightarrow> nat list \<Rightarrow> nat list option" where
  "broadcast_shapes s t = map_option rev (broadcast_rev (rev s) (rev t))"

text \<open>
  The index read from an operand of shape \<open>s\<close> for the result index \<open>idx\<close>: the
  trailing \<open>length s\<close> components, with 0 on every axis of length 1.
\<close>

definition bindex :: "nat list \<Rightarrow> nat list \<Rightarrow> nat list" where
  "bindex s idx = map2 (\<lambda>d i. if d = 1 then 0 else i) s (drop (length idx - length s) idx)"

text \<open>\<open>a * b\<close> on arrays.\<close>

definition np_multiply :: "'a::times ndarray \<Rightarrow> 'a ndarray \<Rightarrow> error + 'a ndarray" where
  "np_multiply a b =
     (case broadcast_shapes (shape a) (shape b) of
        None \<Rightarrow> Inl ValueError
      | Some r \<Rightarrow>
          Inr \<lparr>shape = r,
               flat = map (\<lambda>k. item a (bindex (shape a) (unravel r k)) *
                                item b (bindex (shape b) (unravel r k)))
                          [0..<prod_list r]\<rparr>)"

text \<open>\<open>a.squeeze()\<close>: every axis of length 1 is removed; the buffer is unchanged.\<close>

definition squeeze :: "'a ndarray \<Rightarrow> 'a ndarray" where
  "squeeze a = a\<lparr>shape := filter (\<lambda>d. d \<noteq> 1) (shape a)\<rparr>"

text \<open>
  \<open>np.stack(arrays, axis=-1)\<close>: an empty list and arrays of different shapes raise
  ValueError; otherwise the arrays are joined along a new last axis.
\<close>

definition np_stack_last :: "'a ndarray list \<Rightarrow> error + 'a ndarray" where
  "np_stack_last arrays =
     (case arrays of
        [] \<Rightarrow> Inl ValueError
      | a # rest \<Rightarrow>
          if list_ex (\<lambda>b. shape b \<noteq> shape a) rest then Inl ValueError
          else Inr \<lparr>shape = shape a @ [length arrays],
                    flat = concat (map (\<lambda>k. map (\<lambda>b. flat b ! k) arrays)
                                       [0..<prod_list (shape a)])\<rparr>)"

text \<open>
  Lines 76 to 83 of \<open>deface_image\<close>: the product of the squeezed subject data and the
  mask; when that raises ValueError, the mask is stacked \<open>shape[-1]\<close> times along a new
  last axis and multiplied with the subject data as they are. \<open>shape[-1]\<close> of a
  0-dimensional array raises IndexError.
\<close>

definition deface_multiply :: "'a::times ndarray \<Rightarrow> 'a ndarray \<Rightarrow> error + 'a ndarray" where
  "deface_multiply infile_data mask_data =
     (case np_multiply (squeeze infile_data) mask_data of
        Inr outdata \<Rightarrow> Inr outdata
      | Inl ValueError \<Rightarrow>
          (case shape infile_data of
             [] \<Rightarrow> Inl IndexError
           | _ # _ \<Rightarrow>
               (case np_stack_last (replicate (last (shape infile_data)) mask_data) of
                  Inl e \<Rightarrow> Inl e
                | Inr tmpdata \<Rightarrow> np_multiply infile_data tmpdata))
      | Inl e \<Rightarrow> Inl e)"

text \<open>Line 155 of \<open>main\<close>: the companion data times the mask, as they are.\<close>

definition apply_multiply :: "'a::times ndarray \<Rightarrow> 'a ndarray \<Rightarrow> error + 'a ndarray" where
  "apply_multiply applyfile_data mask_data = np_multiply applyfile_data mask_data"

section \<open>Images, files and external calls\<close>

text \<open>
  A nibabel image: voxel data with its affine and header. The types of the affine
  (a 4x4 transform) and of the header are left open. \<open>load\<close> followed by
  \<open>get_data\<close> reads the whole file, so a loaded image is a value that no longer
  depends on the file.
\<close>

record ('a, 'g, 'h) image =
  dataobj :: "'a ndarray"
  affine :: 'g
  header :: 'h

definition Nifti1Image :: "'a ndarray \<Rightarrow> 'g \<Rightarrow> 'h \<Rightarrow> ('a, 'g, 'h) image" where
  "Nifti1Image d a h = \<lparr>dataobj = d, affine = a, header = h\<rparr>"

text \<open>What a path holds: a volume, a transform matrix, or other bytes.\<close>

datatype ('a, 'g, 'h) entry =
    Blob string
  | Nifti "('a, 'g, 'h) image"
  | Matrix 'g

type_synonym ('a, 'g, 'h) fs = "string \<Rightarrow> ('a, 'g, 'h) entry option"

text \<open>The inputs set on an \<open>fsl.FLIRT()\<close> interface before \<open>run()\<close>.\<close>

record flirt_inputs =
  cost_func :: "string option"
  in_file :: string
  out_matrix_file :: string
  out_file :: string
  reference :: string
  in_matrix_file :: "string option"
  apply_xfm :: bool

text \<open>
  The calls the program makes to the file system, to nibabel and to the registration
  engine are recorded in order: a file created by \<open>mkstemp\<close>, an engine run
  (recorded whether it succeeds or not), an image loaded, an image saved, a file removed.
\<close>

datatype ('a, 'g, 'h) event =
    Created string
  | FlirtRun flirt_inputs
  | Loaded string "('a, 'g, 'h) image"
  | Saved string "('a, 'g, 'h) image"
  | Removed string

record ('a, 'g, 'h) world =
  files :: "('a, 'g, 'h) fs"
  trace :: "('a, 'g, 'h) event list"

text \<open>The images saved and the images loaded in a stretch of the record, in order.\<close>

fun saved :: "('a, 'g, 'h) event list \<Rightarrow> (string \<times> ('a, 'g, 'h) image) list" where
  "saved [] = []"
| "saved (Saved p img # es) = (p, img) # saved es"
| "saved (_ # es) = saved es"

fun loaded :: "('a, 'g, 'h) event list \<Rightarrow> (string \<times> ('a, 'g, 'h) image) list" where
  "loaded [] = []"
| "loaded (Loaded p img # es) = (p, img) # loaded es"
| "loaded (_ # es) = loaded es"

text \<open>The engine runs in a stretch of the record, in order.\<close>

fun flirt_runs :: "('a, 'g, 'h) event list \<Rightarrow> flirt_inputs list" where
  "flirt_runs [] = []"
| "flirt_runs (FlirtRun inputs # es) = inputs # flirt_runs es"
| "flirt_runs (_ # es) = flirt_runs es"

text \<open>What a run adds to the record of the world it started from.\<close>

definition new_events :: "('a, 'g, 'h) world \<Rightarrow> ('a, 'g, 'h) world \<Rightarrow> ('a, 'g, 'h) event list" where
  "new_events w w' = drop (length (trace w)) (trace w')"

text \<open>
  What the program takes from outside: the packaged default assets, the default output
  name of an input path, the name \<open>mkstemp\<close> picks for the current files, and the
  registration engine, which for its inputs and the current files either fails or yields
  the output volume and the output matrix.
\<close>

record ('a, 'g, 'h) env =
  default_template :: string
  default_facemask :: string
  defaced_name :: "string \<Rightarrow> string"
  temp_name :: "('a, 'g, 'h) fs \<Rightarrow> string"
  flirt_engine :: "flirt_inputs \<Rightarrow> ('a, 'g, 'h) fs \<Rightarrow> (('a, 'g, 'h) image \<times> 'g) option"

text \<open>The argparse namespace.\<close>

record args =
  infile :: string
  outfile :: "string option"
  force :: bool
  applyto :: "string list option"
  cost :: string
  template :: "string option"
  facemask :: "string option"
  nocleanup :: bool
  verbose :: bool

text \<open>
  A statement either raises or returns, and leaves a world behind in both cases.
\<close>

type_synonym ('a, 'g, 'h, 'r) io = "('a, 'g, 'h) world \<Rightarrow> (error + 'r) \<times> ('a, 'g, 'h) world"

definition ret :: "'r \<Rightarrow> ('a, 'g, 'h, 'r) io" where
  "ret x w = (Inr x, w)"

definition lift :: "error + 'r \<Rightarrow> ('a, 'g, 'h, 'r) io" where
  "lift r w = (r, w)"

definition then_do :: "('a, 'g, 'h, 'r) io \<Rightarrow> ('r \<Rightarrow> ('a, 'g, 'h, 's) io) \<Rightarrow> ('a, 'g, 'h, 's) io" where
  "then_do m f w = (case m w of (Inl e, w') \<Rightarrow> (Inl e, w') | (Inr x, w') \<Rightarrow> f x w')"

definition log_event :: "('a, 'g, 'h) event \<Rightarrow> ('a, 'g, 'h) world \<Rightarrow> ('a, 'g, 'h) world" where
  "log_event e w = w\<lparr>trace := trace w @ [e]\<rparr>"

text \<open>
  \<open>tempfile.mkstemp()\<close> creates an empty file under a name that did not exist and
  returns the name; when no free name is found it raises FileExistsError.
\<close>

definition mkstemp :: "('a, 'g, 'h) env \<Rightarrow> ('a, 'g, 'h, string) io" where
  "mkstemp env w =
     (let p = temp_name env (files w) in
      if files w p \<noteq> None then (Inl FileExistsError, w)
      else (Inr p, log_event (Created p) (w\<lparr>files := (files w)(p \<mapsto> Blob [])\<rparr>)))"

text \<open>\<open>nibabel.load\<close> and \<open>get_data\<close>.\<close>

definition load :: "string \<Rightarrow> ('a, 'g, 'h, ('a, 'g, 'h) image) io" where
  "load p w =
     (case files w p of
        None \<Rightarrow> (Inl FileNotFoundError, w)
      | Some (Nifti img) \<Rightarrow> (Inr img, log_event (Loaded p img) w)
      | Some _ \<Rightarrow> (Inl ImageFileError, w))"

text \<open>\<open>img.to_filename(p)\<close> creates or replaces the file.\<close>

definition to_filename :: "('a, 'g, 'h) image \<Rightarrow> string \<Rightarrow> ('a, 'g, 'h, unit) io" where
  "to_filename img p w =
     (Inr (), log_event (Saved p img) (w\<lparr>files := (files w)(p \<mapsto> Nifti img)\<rparr>))"

text \<open>\<open>os.remove\<close>.\<close>

definition os_remove :: "string \<Rightarrow> ('a, 'g, 'h, unit) io" where
  "os_remove p w =
     (if files w p = None then (Inl FileNotFoundError, w)
      else (Inr (), log_event (Removed p) (w\<lparr>files := (files w)(p := None)\<rparr>)))"

text \<open>
  \<open>flirt.run()\<close>: a blocking call to the engine. A failure raises and writes nothing;
  a success writes the output volume to \<open>out_file\<close> and the matrix to
  \<open>out_matrix_file\<close>.
\<close>

definition flirt_run :: "('a, 'g, 'h) env \<Rightarrow> flirt_inputs \<Rightarrow> ('a, 'g, 'h, unit) io" where
  "flirt_run env inputs w =
     (case flirt_engine env inputs (files w) of
        None \<Rightarrow> (Inl RegistrationError, log_event (FlirtRun inputs) w)
      | Some (vol, mat) \<Rightarrow>
          (Inr (), log_event (FlirtRun inputs)
                     (w\<lparr>files := (files w)(out_file inputs \<mapsto> Nifti vol,
                                              out_matrix_file inputs \<mapsto> Matrix mat)\<rparr>)))"

text \<open>
  Modelled from the spec: \<open>pydeface.utils.initial_checks\<close> is not among the sources.
  It resolves the template and the facemask, an override or else the default asset, and
  fails unless both are existing readable volumes.
\<close>

definition initial_checks ::
  "('a, 'g, 'h) env \<Rightarrow> string option \<Rightarrow> string option \<Rightarrow> ('a, 'g, 'h, string \<times> string) io" where
  "initial_checks env template_arg facemask_arg w =
     (let t = (case template_arg of None \<Rightarrow> default_template env | Some p \<Rightarrow> p);
          f = (case facemask_arg of None \<Rightarrow> default_facemask env | Some p \<Rightarrow> p);
          readable = (\<lambda>p. case files w p of Some (Nifti _) \<Rightarrow> True | _ \<Rightarrow> False)
      in if readable t \<and> readable f then (Inr (t, f), w) else (Inl MissingAssetError, w))"

text \<open>
  Modelled from the spec: \<open>pydeface.utils.output_checks\<close> is not among the sources.
  It resolves the output path, the override or else the default name of the input, and
  fails if the target exists and overwriting is not allowed.
\<close>

definition output_path :: "('a, 'g, 'h) env \<Rightarrow> string \<Rightarrow> string option \<Rightarrow> string" where
  "output_path env infile_arg outfile_arg =
     (case outfile_arg of None \<Rightarrow> defaced_name env infile_arg | Some p \<Rightarrow> p)"

definition output_checks ::
  "('a, 'g, 'h) env \<Rightarrow> string \<Rightarrow> string option \<Rightarrow> bool \<Rightarrow> ('a, 'g, 'h, string) io" where
  "output_checks env infile_arg outfile_arg force_arg w =
     (let out = output_path env infile_arg outfile_arg
      in if files w out \<noteq> None \<and> \<not> force_arg then (Inl OutputExistsError, w)
         else (Inr out, w))"

section \<open>The defacing run\<close>

text \<open>Lines 43 to 50: the names of the four temporary files of a run.\<close>

record tmpfiles =
  template_reg_mat :: string
  warped_mask :: string
  template_reg :: string
  warped_mask_mat :: string

definition temp_files :: "('a, 'g, 'h) env \<Rightarrow> ('a, 'g, 'h, tmpfiles) io" where
  "temp_files env =
     then_do (mkstemp env) (\<lambda>p1.
     then_do (mkstemp env) (\<lambda>p2.
     then_do (mkstemp env) (\<lambda>p3.
     then_do (mkstemp env) (\<lambda>p4.
     ret \<lparr>template_reg_mat = p1 @ ''.mat'', warped_mask = p2 @ ''.nii.gz'',
          template_reg = p3, warped_mask_mat = p4\<rparr>))))"

text \<open>Lines 55 to 60: the inputs of the run that registers the template to the subject.\<close>

definition estimate_inputs :: "args \<Rightarrow> string \<Rightarrow> tmpfiles \<Rightarrow> flirt_inputs" where
  "estimate_inputs a template_p tmp =
     \<lparr>cost_func = Some (cost a), in_file = template_p,
      out_matrix_file = template_reg_mat tmp, out_file = template_reg tmp,
      reference = infile a, in_matrix_file = None, apply_xfm = False\<rparr>"

text \<open>Lines 64 to 70: the inputs of the run that warps the facemask.\<close>

definition warp_inputs :: "args \<Rightarrow> string \<Rightarrow> tmpfiles \<Rightarrow> flirt_inputs" where
  "warp_inputs a facemask_p tmp =
     \<lparr>cost_func = None, in_file = facemask_p,
      out_matrix_file = warped_mask_mat tmp, out_file = warped_mask tmp,
      reference = infile a, in_matrix_file = Some (template_reg_mat tmp), apply_xfm = True\<rparr>"

text \<open>Lines 89 to 94.\<close>

definition cleanup :: "args \<Rightarrow> tmpfiles \<Rightarrow> ('a, 'g, 'h, unit) io" where
  "cleanup a tmp =
     (if nocleanup a then ret ()
      else then_do (os_remove (warped_mask tmp)) (\<lambda>_.
           then_do (os_remove (template_reg tmp)) (\<lambda>_.
           os_remove (template_reg_mat tmp))))"

text \<open>\<open>deface_image\<close>; the prints are left out.\<close>

definition deface_image ::
  "('a::times, 'g, 'h) env \<Rightarrow> args \<Rightarrow> ('a, 'g, 'h, ('a, 'g, 'h) image) io" where
  "deface_image env a =
     then_do (initial_checks env (template a) (facemask a)) (\<lambda>(template_p, facemask_p).
     then_do (output_checks env (infile a) (outfile a) (force a)) (\<lambda>outfile_p.
     then_do (temp_files env) (\<lambda>tmp.
     then_do (flirt_run env (estimate_inputs a template_p tmp)) (\<lambda>_.
     then_do (flirt_run env (warp_inputs a facemask_p tmp)) (\<lambda>_.
     then_do (load (infile a)) (\<lambda>infile_img.
     then_do (load (warped_mask tmp)) (\<lambda>warped_mask_img.
     then_do (lift (deface_multiply (dataobj infile_img) (dataobj warped_mask_img))) (\<lambda>outdata.
     then_do (to_filename (Nifti1Image outdata (affine infile_img) (header infile_img)) outfile_p) (\<lambda>_.
     then_do (cleanup a tmp) (\<lambda>_.
     ret warped_mask_img))))))))))"

text \<open>Lines 154 to 159: the body of the loop over \<open>args.applyto\<close>.\<close>

definition apply_one ::
  "('a::times, 'g, 'h) env \<Rightarrow> ('a, 'g, 'h) image \<Rightarrow> string \<Rightarrow> ('a, 'g, 'h, unit) io" where
  "apply_one env warped_mask_img applyfile =
     then_do (load applyfile) (\<lambda>applyfile_img.
     then_do (lift (apply_multiply (dataobj applyfile_img) (dataobj warped_mask_img))) (\<lambda>outdata.
     then_do (output_checks env applyfile None False) (\<lambda>outfile_p.
     to_filename (Nifti1Image outdata (affine applyfile_img) (header applyfile_img)) outfile_p)))"

text \<open>Lines 153 to 160: the loop.\<close>

fun apply_all ::
  "('a::times, 'g, 'h) env \<Rightarrow> ('a, 'g, 'h) image \<Rightarrow> string list \<Rightarrow> ('a, 'g, 'h, unit) io" where
  "apply_all env warped_mask_img [] = ret ()"
| "apply_all env warped_mask_img (applyfile # rest) =
     then_do (apply_one env warped_mask_img applyfile) (\<lambda>_. apply_all env warped_mask_img rest)"

text \<open>\<open>main\<close> after argument parsing.\<close>

definition main :: "('a::times, 'g, 'h) env \<Rightarrow> args \<Rightarrow> ('a, 'g, 'h, unit) io" where
  "main env a =
     then_do (deface_image env a) (\<lambda>warped_mask_img.
     case applyto a of
       None \<Rightarrow> ret ()
     | Some paths \<Rightarrow> apply_all env warped_mask_img paths)"

text \<open>
  The spec's words for the collapse before the direct product, "collapsing any trailing
  singleton dimension": only the axes of length 1 at the end of the shape are removed.
  It is compared with \<open>squeeze\<close> below and used nowhere in the program.
\<close>

definition squeeze_trailing_spec :: "'a ndarray \<Rightarrow> 'a ndarray" where
  "squeeze_trailing_spec a = a\<lparr>shape := rev (dropWhile (\<lambda>d. d = 1) (rev (shape a)))\<rparr>"


section \<open>Example data\<close>

text \<open>Small integer volumes used to run the definitions.\<close>

definition subject3 :: "int ndarray" where
  "subject3 = \<lparr>shape = [2, 2, 2], flat = [1, 2, 3, 4, 5, 6, 7, 8]\<rparr>"

definition subject4 :: "int ndarray" where
  "subject4 = \<lparr>shape = [2, 2, 2, 3], flat = map int [1..<25]\<rparr>"

definition subject41 :: "int ndarray" where
  "subject41 = \<lparr>shape = [2, 2, 2, 1], flat = [1, 2, 3, 4, 5, 6, 7, 8]\<rparr>"

definition mask3 :: "int ndarray" where
  "mask3 = \<lparr>shape = [2, 2, 2], flat = [0, 0, 1, 1, 1, 1, 1, 1]\<rparr>"

definition slab :: "int ndarray" where
  "slab = \<lparr>shape = [2, 1, 2], flat = [1, 2, 3, 4]\<rparr>"

definition slab_mask :: "int ndarray" where
  "slab_mask = \<lparr>shape = [2, 1, 2], flat = [1, 0, 1, 1]\<rparr>"

text \<open>
  An environment whose engine returns the moving image unchanged, and one whose engine
  always fails.
\<close>

definition env0 :: "(int, nat, nat) env" where
  "env0 = \<lparr>default_template = ''tpl'', default_facemask = ''fm'',
           defaced_name = (\<lambda>p. p @ ''_defaced''),
           temp_name = (\<lambda>fs. if fs ''t1'' = None then ''t1''
                               else if fs ''t2'' = None then ''t2''
                               else if fs ''t3'' = None then ''t3'' else ''t4''),
           flirt_engine = (\<lambda>inputs fs. case fs (in_file inputs) of
                                            Some (Nifti img) \<Rightarrow> Some (img, 0)
                                          | _ \<Rightarrow> None)\<rparr>"

definition env_fail :: "(int, nat, nat) env" where
  "env_fail = env0\<lparr>flirt_engine := (\<lambda>inputs fs. None)\<rparr>"

definition world0 :: "(int, nat, nat) world" where
  "world0 = \<lparr>files = [''sub'' \<mapsto> Nifti \<lparr>dataobj = subject3, affine = 7, header = 1\<rparr>,
                       ''tpl'' \<mapsto> Nifti \<lparr>dataobj = subject3, affine = 9, header = 2\<rparr>,
                       ''fm'' \<mapsto> Nifti \<lparr>dataobj = mask3, affine = 9, header = 2\<rparr>,
                       ''bold'' \<mapsto> Nifti \<lparr>dataobj = subject4, affine = 8, header = 3\<rparr>,
                       ''pd'' \<mapsto> Nifti \<lparr>dataobj = subject3, affine = 5, header = 4\<rparr>],
             trace = []\<rparr>"

definition args0 :: args where
  "args0 = \<lparr>infile = ''sub'', outfile = None, force = False, applyto = None,
            cost = ''mutualinfo'', template = None, facemask = None,
            nocleanup = False, verbose = False\<rparr>"

text \<open>The warped mask and the temporary names of a run of \<open>env0\<close> on \<open>world0\<close>.\<close>

definition mask_img0 :: "(int, nat, nat) image" where
  "mask_img0 = \<lparr>dataobj = mask3, affine = 9, header = 2\<rparr>"

definition tmp0 :: tmpfiles where
  "tmp0 = \<lparr>template_reg_mat = ''t1.mat'', warped_mask = ''t2.nii.gz'',
           template_reg = ''t3'', warped_mask_mat = ''t4''\<rparr>"

text \<open>A second run: the default output of \<open>sub\<close> exists already.\<close>

definition world_rerun :: "(int, nat, nat) world" where
  "world_rerun = world0\<lparr>files := (files world0)(''sub_defaced'' \<mapsto> Blob ''old'')\<rparr>"

definition args_force :: args where
  "args_force = args0\<lparr>force := True\<rparr>"

section \<open>Arrays: indexing, broadcasting, stacking\<close>

lemma offset_lt: "list_all2 (<) idx s \<Longrightarrow> offset s idx < prod_list s"
proof (induction s arbitrary: idx)
  case Nil then show ?case by simp
next
  case (Cons n s)
  then obtain i r where idx: "idx = i # r" and i: "i < n" and r: "list_all2 (<) r s"
    by (auto simp: list_all2_Cons2)
  have "offset s r < prod_list s" using Cons.IH r by simp
  moreover have "i * prod_list s + prod_list s \<le> n * prod_list s"
    using i by (metis Suc_leI mult_Suc mult_le_mono1 add.commute)
  ultimately show ?case using idx by simp
qed

lemma unravel_offset: "list_all2 (<) idx s \<Longrightarrow> unravel s (offset s idx) = idx"
proof (induction s arbitrary: idx)
  case Nil then show ?case by simp
next
  case (Cons n s)
  then obtain i r where idx: "idx = i # r" and i: "i < n" and r: "list_all2 (<) r s"
    by (auto simp: list_all2_Cons2)
  have lt: "offset s r < prod_list s" using offset_lt r by simp
  then show ?case using idx Cons.IH[OF r] by simp
qed

lemma bindex_same: "list_all2 (<) idx s \<Longrightarrow> bindex s idx = idx"
proof -
  assume a: "list_all2 (<) idx s"
  then have len: "length idx = length s" by (rule list_all2_lengthD)
  have "map2 (\<lambda>d i. if d = 1 then 0 else i) s idx = idx" using a
    by (induction idx s rule: list_all2_induct) auto
  then show ?thesis by (simp add: bindex_def len)
qed

lemma broadcast_rev_same: "broadcast_rev s s = Some s"
  by (induction s) auto

lemma broadcast_shapes_same: "broadcast_shapes s s = Some s"
  by (simp add: broadcast_shapes_def broadcast_rev_same)

lemma np_multiply_item:
  assumes "np_multiply a b = Inr out" and "list_all2 (<) idx (shape out)"
  shows "item out idx = item a (bindex (shape a) idx) * item b (bindex (shape b) idx)"
proof -
  from assms(1) obtain r where r: "broadcast_shapes (shape a) (shape b) = Some r"
    and out: "out = \<lparr>shape = r,
               flat = map (\<lambda>k. item a (bindex (shape a) (unravel r k)) *
                                item b (bindex (shape b) (unravel r k)))
                          [0..<prod_list r]\<rparr>"
    by (auto simp: np_multiply_def split: option.splits)
  have idx: "list_all2 (<) idx r" using assms(2) out by simp
  have lt: "offset r idx < prod_list r" using idx by (rule offset_lt)
  have un: "unravel r (offset r idx) = idx" using idx by (rule unravel_offset)
  show ?thesis using lt un by (simp add: out item_def)
qed

lemma offset_unravel: "k < prod_list s \<Longrightarrow> offset s (unravel s k) = k"
proof (induction s arbitrary: k)
  case Nil then show ?case by simp
next
  case (Cons n s)
  have pos: "0 < prod_list s" using Cons.prems by (cases "prod_list s = 0") auto
  have "offset s (unravel s (k mod prod_list s)) = k mod prod_list s"
    using Cons.IH pos by simp
  then show ?case by simp
qed

lemma concat_replicate_nth:
  "i < n \<Longrightarrow> t < T \<Longrightarrow> concat (map (\<lambda>k. replicate T (f k)) [0..<n]) ! (i * T + t) = f i"
proof (induction n)
  case 0 then show ?case by simp
next
  case (Suc n)
  have len: "length (concat (map (\<lambda>k. replicate T (f k)) [0..<n])) = n * T"
    by (induction n) simp_all
  show ?case
  proof (cases "i < n")
    case True
    have "i * T + t < n * T"
    proof -
      have "i * T + T \<le> n * T" using True by (metis Suc_leI mult_Suc mult_le_mono1 add.commute)
      then show ?thesis using Suc.prems(2) by simp
    qed
    then show ?thesis using Suc.IH True Suc.prems(2) by (simp add: nth_append len)
  next
    case False
    then have "i = n" using Suc.prems(1) by simp
    then show ?thesis using Suc.prems(2) by (simp add: nth_append len)
  qed
qed

lemma offset_snoc:
  "list_all2 (<) idx s \<Longrightarrow> offset (s @ [T]) (idx @ [t]) = offset s idx * T + t"
  by (induction idx s rule: list_all2_induct) (simp_all add: algebra_simps)

lemma np_stack_replicate:
  "0 < T \<Longrightarrow> np_stack_last (replicate T m) =
     Inr \<lparr>shape = shape m @ [T],
          flat = concat (map (\<lambda>k. replicate T (flat m ! k)) [0..<prod_list (shape m)])\<rparr>"
proof -
  assume "0 < T"
  then obtain n where T: "T = Suc n" by (cases T) auto
  have rep: "replicate T m = m # replicate n m" by (simp add: T)
  have len: "length (replicate T m) = T" by simp
  have noex: "\<not> list_ex (\<lambda>b. shape b \<noteq> shape m) (replicate n m)"
    by (simp add: list_ex_iff)
  have "np_stack_last (replicate T m) =
     Inr \<lparr>shape = shape m @ [length (replicate T m)],
          flat = concat (map (\<lambda>k. map (\<lambda>b. flat b ! k) (replicate T m)) [0..<prod_list (shape m)])\<rparr>"
    unfolding np_stack_last_def rep[symmetric] using noex
    by (subst (1) rep) (simp add: rep)
  then show ?thesis by (simp only: len map_replicate)
qed

lemma broadcast_rev_leading: "broadcast_rev xs (xs @ replicate k 1) = Some (xs @ replicate k 1)"
  by (induction xs) auto

lemma broadcast_shapes_leading:
  "broadcast_shapes r (replicate k 1 @ r) = Some (replicate k 1 @ r)"
  using broadcast_rev_leading[of "rev r" k] by (simp add: broadcast_shapes_def)

lemma subject4_mismatch: "np_multiply (squeeze subject4) mask3 = Inl ValueError"
  by (simp add: np_multiply_def squeeze_def subject4_def mask3_def broadcast_shapes_def)

lemma unravel_in_range: "k < prod_list s \<Longrightarrow> list_all2 (<) (unravel s k) s"
proof (induction s arbitrary: k)
  case Nil then show ?case by simp
next
  case (Cons n s)
  have pos: "0 < prod_list s" using Cons.prems by (cases "prod_list s = 0") auto
  have "k div prod_list s < n"
    using Cons.prems pos by (simp add: less_mult_imp_div_less mult.commute)
  then show ?case using Cons.IH pos by simp
qed

lemma prod_list_leading: "prod_list (replicate k 1 @ s) = (prod_list s :: nat)"
  by (induction k) simp_all

lemma unravel_leading:
  "j < prod_list s \<Longrightarrow> unravel (replicate k 1 @ s) j = replicate k 0 @ unravel s j"
proof (induction k)
  case 0 then show ?case by simp
next
  case (Suc k)
  have "prod_list (replicate k 1 @ s) = prod_list s" by (rule prod_list_leading)
  then show ?case using Suc by simp
qed

lemma item_unravel:
  "j < prod_list (shape a) \<Longrightarrow> item a (bindex (shape a) (unravel (shape a) j)) = flat a ! j"
  by (simp add: item_def bindex_same unravel_in_range offset_unravel)

lemma item_unravel_leading:
  assumes "j < prod_list (shape a)"
  shows "item a (bindex (shape a) (unravel (replicate k 1 @ shape a) j)) = flat a ! j"
proof -
  have len: "length (unravel (shape a) j) = length (shape a)"
    using unravel_in_range[OF assms] by (rule list_all2_lengthD)
  have "bindex (shape a) (replicate k 0 @ unravel (shape a) j) = bindex (shape a) (unravel (shape a) j)"
    by (simp add: bindex_def len)
  then show ?thesis using unravel_leading[OF assms, of k] item_unravel[OF assms] by simp
qed

lemma np_multiply_leading:
  assumes "wf_array a" and "wf_array b" and sb: "shape b = replicate k 1 @ shape a"
  shows "np_multiply a b = Inr \<lparr>shape = shape b, flat = map2 (*) (flat a) (flat b)\<rparr>"
proof -
  let ?n = "prod_list (shape a)"
  have pb: "prod_list (shape b) = ?n" by (simp only: sb prod_list_leading)
  have la: "length (flat a) = ?n" and lb: "length (flat b) = ?n"
    using assms(1,2) pb by (simp_all add: wf_array_def)
  have el: "item a (bindex (shape a) (unravel (shape b) j)) * item b (bindex (shape b) (unravel (shape b) j))
            = map2 (*) (flat a) (flat b) ! j" if "j < ?n" for j
  proof -
    have "item a (bindex (shape a) (unravel (shape b) j)) = flat a ! j"
      using that by (simp only: sb item_unravel_leading)
    moreover have "item b (bindex (shape b) (unravel (shape b) j)) = flat b ! j"
      using that pb by (simp only: item_unravel)
    ultimately show ?thesis using that la lb by simp
  qed
  have "map (\<lambda>j. item a (bindex (shape a) (unravel (shape b) j)) *
                  item b (bindex (shape b) (unravel (shape b) j))) [0..<prod_list (shape b)]
        = map2 (*) (flat a) (flat b)"
    by (rule nth_equalityI) (simp_all add: la lb pb el)
  moreover have "broadcast_shapes (shape a) (shape b) = Some (shape b)"
    by (simp only: sb broadcast_shapes_leading)
  ultimately show ?thesis by (simp add: np_multiply_def)
qed

lemma prod_list_squeeze: "prod_list (filter (\<lambda>d. d \<noteq> 1) s) = (prod_list s :: nat)"
  by (induction s) simp_all

lemma wf_squeeze: "wf_array a \<Longrightarrow> wf_array (squeeze a)"
  using prod_list_squeeze[of "shape a"] by (simp add: wf_array_def squeeze_def)

lemma np_multiply_same_shape_ok:
  "shape a = shape b \<Longrightarrow> \<exists>out. np_multiply a b = Inr out \<and> shape out = shape a"
  by (simp add: np_multiply_def broadcast_shapes_same)

lemma np_multiply_shape:
  "np_multiply a b = Inr out \<Longrightarrow> broadcast_shapes (shape a) (shape b) = Some (shape out)"
  by (auto simp: np_multiply_def split: option.splits)

lemma np_multiply_error: "np_multiply a b = Inl e \<Longrightarrow> e = ValueError"
  by (auto simp: np_multiply_def split: option.splits)

text \<open>
  A subject whose last axis is empty: when the direct product raises, so does the
  stacking, since \<open>np.stack\<close> is given an empty list.
\<close>

lemma deface_multiply_empty_axis:
  assumes "shape subj = [X, Y, Z, 0]" and "np_multiply (squeeze subj) msk = Inl ValueError"
  shows "deface_multiply subj msk = Inl ValueError"
  using assms by (simp add: deface_multiply_def np_stack_last_def)

section \<open>The masked multiplication\<close>

text \<open>
  C1. A subject of shape (X,Y,Z,T) with at least one volume, T > 0, and a mask of shape
  (X,Y,Z), whose direct product raises the shape mismatch: the mask is stacked T times
  along a new last axis, the result is the product of the subject with the stacked mask,
  it has the shape of the subject, and at every index its value is the subject's value
  times the mask's value at the first three coordinates. The stacking is reached only
  through the mismatch: whenever the direct product returns, it is the result.
\<close>

theorem deface_multiply_broadcast:
  assumes sh: "shape subj = [X, Y, Z, T]" and mh: "shape msk = [X, Y, Z]"
    and T: "0 < T"
    and mismatch: "np_multiply (squeeze subj) msk = Inl ValueError"
  shows "(\<exists>tmp out. np_stack_last (replicate T msk) = Inr tmp \<and> shape tmp = [X, Y, Z, T] \<and>
            deface_multiply subj msk = np_multiply subj tmp \<and>
            np_multiply subj tmp = Inr out \<and> shape out = [X, Y, Z, T] \<and>
            (\<forall>x<X. \<forall>y<Y. \<forall>z<Z. \<forall>t<T.
                item tmp [x, y, z, t] = item msk [x, y, z] \<and>
                item out [x, y, z, t] = item subj [x, y, z, t] * item msk [x, y, z]))
         \<and> (\<forall>s m d. np_multiply (squeeze s) m = Inr d \<longrightarrow> deface_multiply s (m :: 'a::times ndarray) = Inr d)"
proof -
  define tmp where "tmp = \<lparr>shape = shape msk @ [T],
          flat = concat (map (\<lambda>k. replicate T (flat msk ! k)) [0..<prod_list (shape msk)])\<rparr>"
  have st: "np_stack_last (replicate T msk) = Inr tmp"
    unfolding tmp_def using T by (rule np_stack_replicate)
  have tsh: "shape tmp = [X, Y, Z, T]" by (simp add: tmp_def mh)
  have tfl: "flat tmp = concat (map (\<lambda>k. replicate T (flat msk ! k)) [0..<prod_list (shape msk)])"
    by (simp add: tmp_def)
  have dm: "deface_multiply subj msk = np_multiply subj tmp"
    using mismatch st by (simp add: deface_multiply_def sh)
  have "broadcast_shapes (shape subj) (shape tmp) = Some [X, Y, Z, T]"
    by (simp only: sh tsh broadcast_shapes_same)
  then obtain out where out: "np_multiply subj tmp = Inr out" and osh: "shape out = [X, Y, Z, T]"
    by (simp add: np_multiply_def)
  have items: "item tmp [x, y, z, t] = item msk [x, y, z] \<and>
               item out [x, y, z, t] = item subj [x, y, z, t] * item msk [x, y, z]"
    if "x < X" "y < Y" "z < Z" "t < T" for x y z t
  proof -
    have r3: "list_all2 (<) [x, y, z] (shape msk)" using that by (simp add: mh)
    have r4: "list_all2 (<) [x, y, z, t] [X, Y, Z, T]" using that by simp
    have o3: "offset (shape msk) [x, y, z] < prod_list (shape msk)" using r3 by (rule offset_lt)
    have "offset (shape msk @ [T]) ([x, y, z] @ [t]) = offset (shape msk) [x, y, z] * T + t"
      using r3 by (rule offset_snoc)
    then have "offset [X, Y, Z, T] [x, y, z, t] = offset (shape msk) [x, y, z] * T + t"
      by (simp add: mh)
    then have it: "item tmp [x, y, z, t] = item msk [x, y, z]"
      using concat_replicate_nth[OF o3 that(4), of "\<lambda>k. flat msk ! k"]
      by (simp only: item_def tsh tfl)
    have bi: "bindex [X, Y, Z, T] [x, y, z, t] = [x, y, z, t]" using r4 by (rule bindex_same)
    have "item out [x, y, z, t] =
        item subj (bindex (shape subj) [x, y, z, t]) * item tmp (bindex (shape tmp) [x, y, z, t])"
      using out r4 osh by (intro np_multiply_item) simp_all
    then have "item out [x, y, z, t] = item subj [x, y, z, t] * item tmp [x, y, z, t]"
      by (simp only: sh tsh bi)
    then show ?thesis using it by simp
  qed
  have only: "\<forall>s m d. np_multiply (squeeze s) m = Inr d \<longrightarrow> deface_multiply s (m :: 'a ndarray) = Inr d"
    by (simp add: deface_multiply_def)
  show ?thesis using st tsh dm out osh items only by blast
qed

theorem deface_multiply_broadcast_witness:
  "np_multiply (squeeze subject4) mask3 = Inl ValueError \<and>
   (\<exists>out. deface_multiply subject4 mask3 = Inr out \<and> shape out = [2, 2, 2, 3] \<and>
      (\<forall>x<2. \<forall>y<2. \<forall>z<2. \<forall>t<3.
          item out [x, y, z, t] = item subject4 [x, y, z, t] * item mask3 [x, y, z]))"
proof -
  have s: "shape subject4 = [2, 2, 2, 3]" by (simp add: subject4_def)
  have m: "shape mask3 = [2, 2, 2]" by (simp add: mask3_def)
  have t: "(0::nat) < 3" by simp
  show ?thesis
    using deface_multiply_broadcast[OF s m t subject4_mismatch] subject4_mismatch by metis
qed

text \<open>
  C6, as amended. \<open>squeeze\<close> removes every axis of length 1 of the subject data,
  wherever it stands. For a subject and a mask of shape (X,Y,Z) in which no axis of
  length 1 follows an axis of another length, the result of the multiplication has shape
  (X,Y,Z) and is the element-wise product of the two buffers.
\<close>

theorem direct_multiply_elementwise:
  assumes "wf_array subj" and "wf_array msk"
    and sh: "shape subj = [X, Y, Z]" and mh: "shape msk = [X, Y, Z]"
    and lead: "Y = 1 \<longrightarrow> X = 1" "Z = 1 \<longrightarrow> Y = 1"
  shows "shape (squeeze subj) = filter (\<lambda>d. d \<noteq> 1) [X, Y, Z] \<and>
         deface_multiply subj msk = Inr \<lparr>shape = [X, Y, Z], flat = map2 (*) (flat subj) (flat msk)\<rparr>"
proof -
  have sq: "shape (squeeze subj) = filter (\<lambda>d. d \<noteq> 1) [X, Y, Z]" by (simp add: squeeze_def sh)
  have "\<exists>k. [X, Y, Z] = replicate k 1 @ filter (\<lambda>d. d \<noteq> 1) [X, Y, Z]"
  proof (cases "X = 1")
    case False
    then have "[X, Y, Z] = replicate 0 1 @ filter (\<lambda>d. d \<noteq> 1) [X, Y, Z]" using lead by auto
    then show ?thesis by blast
  next
    case X: True
    show ?thesis
    proof (cases "Y = 1")
      case False
      then have "[X, Y, Z] = replicate 1 1 @ filter (\<lambda>d. d \<noteq> 1) [X, Y, Z]" using lead X by auto
      then show ?thesis by blast
    next
      case Y: True
      show ?thesis
      proof (cases "Z = 1")
        case False
        then have "[X, Y, Z] = replicate 2 1 @ filter (\<lambda>d. d \<noteq> 1) [X, Y, Z]"
          using X Y by (simp add: numeral_2_eq_2)
        then show ?thesis by blast
      next
        case True
        then have "[X, Y, Z] = replicate 3 1 @ filter (\<lambda>d. d \<noteq> 1) [X, Y, Z]"
          using X Y by (simp add: numeral_3_eq_3)
        then show ?thesis by blast
      qed
    qed
  qed
  then obtain k where "shape msk = replicate k 1 @ shape (squeeze subj)"
    by (auto simp only: mh sq)
  then have "np_multiply (squeeze subj) msk =
      Inr \<lparr>shape = shape msk, flat = map2 (*) (flat (squeeze subj)) (flat msk)\<rparr>"
    using assms(1,2) by (intro np_multiply_leading wf_squeeze)
  then have "np_multiply (squeeze subj) msk =
      Inr \<lparr>shape = [X, Y, Z], flat = map2 (*) (flat subj) (flat msk)\<rparr>"
    by (simp add: mh squeeze_def)
  then show ?thesis using sq by (simp add: deface_multiply_def)
qed

theorem direct_multiply_elementwise_witness:
  "wf_array subject3 \<and> wf_array mask3 \<and>
   deface_multiply subject3 mask3 = Inr \<lparr>shape = [2, 2, 2], flat = [0, 0, 3, 4, 5, 6, 7, 8]\<rparr>"
proof -
  have a: "wf_array subject3" by (simp add: wf_array_def subject3_def)
  have b: "wf_array mask3" by (simp add: wf_array_def mask3_def)
  have c: "shape subject3 = [2, 2, 2]" by (simp add: subject3_def)
  have d: "shape mask3 = [2, 2, 2]" by (simp add: mask3_def)
  have e: "(2::nat) = 1 \<longrightarrow> (2::nat) = 1" by simp
  show ?thesis
    using direct_multiply_elementwise[OF a b c d e e] a b by (simp add: subject3_def mask3_def)
qed

text \<open>
  The claim as stated fails on a subject of shape (2,1,2): the middle axis is removed,
  which a collapse of trailing axes would keep, and the product with the mask of shape
  (2,1,2) broadcasts to shape (2,2,2) instead of the element-wise product.
\<close>

theorem squeeze_inner_axis_counterexample:
  "wf_array slab \<and> wf_array slab_mask \<and> shape slab = [2, 1, 2] \<and> shape slab_mask = [2, 1, 2] \<and>
   shape (squeeze slab) = [2, 2] \<and> squeeze slab \<noteq> squeeze_trailing_spec slab \<and>
   deface_multiply slab slab_mask = Inr \<lparr>shape = [2, 2, 2], flat = [1, 0, 3, 0, 1, 2, 3, 4]\<rparr> \<and>
   deface_multiply slab slab_mask \<noteq> Inr \<lparr>shape = [2, 1, 2], flat = map2 (*) (flat slab) (flat slab_mask)\<rparr>"
  by code_simp

text \<open>
  C2, as amended. With a mask of shape (X,Y,Z) that has no axis of length 1, the
  multiplication returns, and its result has the shape of the subject when the subject has
  shape (X,Y,Z), or shape (X,Y,Z,T) with T > 1; for a subject of shape (X,Y,Z,1) the
  result has the collapsed shape (X,Y,Z). The result is the data of the saved image.
\<close>

theorem output_shape:
  assumes mh: "shape msk = [X, Y, Z]" and ns: "X \<noteq> 1" "Y \<noteq> 1" "Z \<noteq> 1"
  shows "(shape subj = [X, Y, Z] \<longrightarrow>
            (\<exists>out. deface_multiply subj msk = Inr out \<and> shape out = shape subj))
       \<and> (shape subj = [X, Y, Z, T] \<and> 1 < T \<longrightarrow>
            (\<exists>out. deface_multiply subj msk = Inr out \<and> shape out = shape subj))
       \<and> (shape subj = [X, Y, Z, 1] \<longrightarrow>
            (\<exists>out. deface_multiply subj msk = Inr out \<and> shape out = [X, Y, Z]))"
proof (intro conjI impI)
  assume sh: "shape subj = [X, Y, Z]"
  have "shape (squeeze subj) = shape msk" using ns by (simp add: squeeze_def sh mh)
  then obtain out where "np_multiply (squeeze subj) msk = Inr out" "shape out = shape (squeeze subj)"
    using np_multiply_same_shape_ok by blast
  then show "\<exists>out. deface_multiply subj msk = Inr out \<and> shape out = shape subj"
    using ns by (simp add: deface_multiply_def squeeze_def sh)
next
  assume "shape subj = [X, Y, Z, 1]"
  then have "shape (squeeze subj) = shape msk" using ns by (simp add: squeeze_def mh)
  then obtain out where "np_multiply (squeeze subj) msk = Inr out" "shape out = shape (squeeze subj)"
    using np_multiply_same_shape_ok by blast
  then show "\<exists>out. deface_multiply subj msk = Inr out \<and> shape out = [X, Y, Z]"
    using ns \<open>shape (squeeze subj) = shape msk\<close> by (simp add: deface_multiply_def mh)
next
  assume a: "shape subj = [X, Y, Z, T] \<and> 1 < T"
  then have sh: "shape subj = [X, Y, Z, T]" and T: "1 < T" by simp_all
  have sq: "shape (squeeze subj) = [X, Y, Z, T]" using ns T by (simp add: squeeze_def sh)
  show "\<exists>out. deface_multiply subj msk = Inr out \<and> shape out = shape subj"
  proof (cases "np_multiply (squeeze subj) msk")
    case (Inr out)
    then have "broadcast_shapes [X, Y, Z, T] [X, Y, Z] = Some (shape out)"
      using np_multiply_shape[OF Inr] by (simp only: sq mh)
    then have "shape out = [X, Y, Z, T]"
      using ns T by (auto simp: broadcast_shapes_def split: if_splits)
    then show ?thesis using Inr by (simp add: deface_multiply_def sh)
  next
    case (Inl e)
    then have e: "np_multiply (squeeze subj) msk = Inl ValueError"
      using np_multiply_error by blast
    have T0: "0 < T" using T by simp
    define tmp where "tmp = \<lparr>shape = shape msk @ [T],
          flat = concat (map (\<lambda>k. replicate T (flat msk ! k)) [0..<prod_list (shape msk)])\<rparr>"
    have st: "np_stack_last (replicate T msk) = Inr tmp"
      unfolding tmp_def using T0 by (rule np_stack_replicate)
    have "shape subj = shape tmp" by (simp add: tmp_def sh mh)
    then obtain out where "np_multiply subj tmp = Inr out" "shape out = shape subj"
      using np_multiply_same_shape_ok by blast
    then show ?thesis using e st by (simp add: deface_multiply_def sh)
  qed
qed

theorem output_shape_witness:
  "(\<exists>out. deface_multiply subject3 mask3 = Inr out \<and> shape out = shape subject3) \<and>
   (\<exists>out. deface_multiply subject4 mask3 = Inr out \<and> shape out = shape subject4) \<and>
   (\<exists>out. deface_multiply subject41 mask3 = Inr out \<and> shape out = [2, 2, 2])"
proof -
  have m: "shape mask3 = [2, 2, 2]" by (simp add: mask3_def)
  have n: "(2::nat) \<noteq> 1" by simp
  have s3: "shape subject3 = [2, 2, 2]" by (simp add: subject3_def)
  have s4: "shape subject4 = [2, 2, 2, 3] \<and> (1::nat) < 3" by (simp add: subject4_def)
  have s41: "shape subject41 = [2, 2, 2, 1]" by (simp add: subject41_def)
  show ?thesis
    using output_shape[OF m n n n, of subject3 3] output_shape[OF m n n n, of subject4 3]
      output_shape[OF m n n n, of subject41 3] s3 s4 s41
    by blast
qed

text \<open>
  The claim as stated fails on a subject with a trailing singleton axis: shape (2,2,2,1)
  gives an output of shape (2,2,2).
\<close>

theorem trailing_singleton_counterexample:
  "shape subject41 = [2, 2, 2, 1] \<and> shape mask3 = [2, 2, 2] \<and>
   deface_multiply subject41 mask3 = Inr \<lparr>shape = [2, 2, 2], flat = [0, 0, 3, 4, 5, 6, 7, 8]\<rparr>"
  by code_simp

text \<open>
  C4. The product of the loop over \<open>args.applyto\<close> has neither the squeeze nor the
  stacking fallback of \<open>deface_image\<close>: on a companion of shape (2,2,2,3) it raises
  where \<open>deface_image\<close> returns the mask applied to each of the 3 volumes, and on a
  companion of shape (2,2,2,1) it returns shape (2,2,2,2) where \<open>deface_image\<close>
  returns shape (2,2,2).
\<close>

theorem apply_multiply_no_fallback:
  "apply_multiply subject4 mask3 = Inl ValueError \<and>
   deface_multiply subject4 mask3 =
     Inr \<lparr>shape = [2, 2, 2, 3],
          flat = [0, 0, 0, 0, 0, 0, 7, 8, 9, 10, 11, 12, 13, 14, 15, 16, 17, 18, 19, 20, 21, 22, 23, 24]\<rparr> \<and>
   apply_multiply subject41 mask3 =
     Inr \<lparr>shape = [2, 2, 2, 2], flat = [0, 0, 2, 2, 3, 3, 4, 4, 0, 0, 6, 6, 7, 7, 8, 8]\<rparr> \<and>
   deface_multiply subject41 mask3 = Inr \<lparr>shape = [2, 2, 2], flat = [0, 0, 3, 4, 5, 6, 7, 8]\<rparr>"
  by code_simp

section \<open>The run and the batch: auxiliary facts\<close>

lemma then_do_Inr:
  "then_do m f w = (Inr y, w') \<longleftrightarrow> (\<exists>x w1. m w = (Inr x, w1) \<and> f x w1 = (Inr y, w'))"
  by (auto simp: then_do_def split: prod.splits sum.splits)

lemma then_do_Inl:
  "then_do m f w = (Inl e, w') \<longleftrightarrow>
     m w = (Inl e, w') \<or> (\<exists>x w1. m w = (Inr x, w1) \<and> f x w1 = (Inl e, w'))"
  by (auto simp: then_do_def split: prod.splits sum.splits)

lemma initial_checks_world: "initial_checks env t f w = (r, w') \<Longrightarrow> w' = w"
  by (auto simp: initial_checks_def Let_def split: if_splits)

lemma output_checks_world: "output_checks env i out fc w = (r, w') \<Longrightarrow> w' = w"
  by (auto simp: output_checks_def Let_def split: if_splits)

lemma mkstemp_Inr:
  "mkstemp env w = (Inr p, w') \<Longrightarrow>
     files w p = None \<and> files w' = (files w)(p \<mapsto> Blob []) \<and> trace w' = trace w @ [Created p]"
  by (auto simp: mkstemp_def Let_def log_event_def split: if_splits)

lemma temp_files_Inr:
  assumes "temp_files env w = (Inr tmp, w1)"
  shows "\<exists>p1 p2 p3 p4.
           tmp = \<lparr>template_reg_mat = p1 @ ''.mat'', warped_mask = p2 @ ''.nii.gz'',
                  template_reg = p3, warped_mask_mat = p4\<rparr> \<and>
           files w1 = (files w)(p1 \<mapsto> Blob [], p2 \<mapsto> Blob [], p3 \<mapsto> Blob [], p4 \<mapsto> Blob []) \<and>
           trace w1 = trace w @ [Created p1, Created p2, Created p3, Created p4]"
proof -
  from assms obtain p1 wa p2 wb p3 wc p4 where
    a: "mkstemp env w = (Inr p1, wa)" and b: "mkstemp env wa = (Inr p2, wb)" and
    c: "mkstemp env wb = (Inr p3, wc)" and d: "mkstemp env wc = (Inr p4, w1)" and
    t: "tmp = \<lparr>template_reg_mat = p1 @ ''.mat'', warped_mask = p2 @ ''.nii.gz'',
                  template_reg = p3, warped_mask_mat = p4\<rparr>"
    by (auto simp: temp_files_def then_do_Inr ret_def)
  show ?thesis
    using mkstemp_Inr[OF a] mkstemp_Inr[OF b] mkstemp_Inr[OF c] mkstemp_Inr[OF d] t by auto
qed

lemma temp_files_placeholders:
  assumes "temp_files env w = (r, w1)"
  shows "files w1 p = files w p \<or> files w1 p = Some (Blob [])"
    and "\<forall>e \<in> set (drop (length (trace w)) (trace w1)). \<exists>q. e = Created q"
    and "take (length (trace w)) (trace w1) = trace w"
proof -
  have step: "(files wb p = files wa p \<or> files wb p = Some (Blob [])) \<and>
              (\<exists>es. trace wb = trace wa @ es \<and> (\<forall>e\<in>set es. \<exists>q. e = Created q))"
    if "mkstemp env wa = (r', wb)" for wa wb and r' :: "error + string"
    using that by (auto simp: mkstemp_def Let_def log_event_def split: if_splits)
  have main: "(files w1 p = files w p \<or> files w1 p = Some (Blob [])) \<and>
              (\<exists>es. trace w1 = trace w @ es \<and> (\<forall>e\<in>set es. \<exists>q. e = Created q))"
    using assms
    apply (simp add: temp_files_def then_do_def ret_def split: prod.splits sum.splits)
    apply (auto dest!: step)
    done
  show "files w1 p = files w p \<or> files w1 p = Some (Blob [])" using main by simp
  from main obtain es where es: "trace w1 = trace w @ es" "\<forall>e\<in>set es. \<exists>q. e = Created q" by blast
  show "\<forall>e \<in> set (drop (length (trace w)) (trace w1)). \<exists>q. e = Created q" using es by simp
  show "take (length (trace w)) (trace w1) = trace w" using es by simp
qed

lemma load_Inr:
  "load p w = (Inr img, w') \<longleftrightarrow> files w p = Some (Nifti img) \<and> w' = log_event (Loaded p img) w"
  by (auto simp: load_def split: option.splits entry.splits)

lemma load_Inl: "load p w = (Inl e, w') \<Longrightarrow> w' = w"
  by (auto simp: load_def split: option.splits entry.splits)

lemma flirt_run_trace: "flirt_run env inputs w = (r, w') \<Longrightarrow> trace w' = trace w @ [FlirtRun inputs]"
  by (auto simp: flirt_run_def log_event_def split: option.splits)

lemma os_remove_Inr:
  "os_remove p w = (Inr u, w') \<longleftrightarrow>
     files w p \<noteq> None \<and> w' = log_event (Removed p) (w\<lparr>files := (files w)(p := None)\<rparr>)"
  by (auto simp: os_remove_def)

lemma cleanup_Inr:
  assumes "cleanup a tmp w = (Inr u, w')"
  shows "if nocleanup a then w' = w
         else files w' = (files w)(warped_mask tmp := None, template_reg tmp := None,
                                   template_reg_mat tmp := None) \<and>
              trace w' = trace w @ [Removed (warped_mask tmp), Removed (template_reg tmp),
                                    Removed (template_reg_mat tmp)]"
proof (cases "nocleanup a")
  case True
  then show ?thesis using assms by (simp add: cleanup_def ret_def)
next
  case False
  then obtain wa wb where "os_remove (warped_mask tmp) w = (Inr (), wa)"
    "os_remove (template_reg tmp) wa = (Inr (), wb)" "os_remove (template_reg_mat tmp) wb = (Inr u, w')"
    using assms by (auto simp: cleanup_def then_do_Inr)
  then show ?thesis using False by (auto simp: os_remove_Inr log_event_def)
qed

lemma deface_image_Inr:
  assumes "deface_image env a w = (Inr img, w')"
  shows "\<exists>t f outp tmp w1 w2 w3 subj outdata.
     initial_checks env (template a) (facemask a) w = (Inr (t, f), w) \<and>
     output_checks env (infile a) (outfile a) (force a) w = (Inr outp, w) \<and>
     temp_files env w = (Inr tmp, w1) \<and>
     flirt_run env (estimate_inputs a t tmp) w1 = (Inr (), w2) \<and>
     flirt_run env (warp_inputs a f tmp) w2 = (Inr (), w3) \<and>
     files w3 (infile a) = Some (Nifti subj) \<and>
     files w3 (warped_mask tmp) = Some (Nifti img) \<and>
     deface_multiply (dataobj subj) (dataobj img) = Inr outdata \<and>
     cleanup a tmp
       (w3\<lparr>files := (files w3)(outp \<mapsto> Nifti (Nifti1Image outdata (affine subj) (header subj))),
           trace := trace w3 @ [Loaded (infile a) subj, Loaded (warped_mask tmp) img,
                                Saved outp (Nifti1Image outdata (affine subj) (header subj))]\<rparr>)
       = (Inr (), w')"
proof -
  from assms obtain tf wa where ic: "initial_checks env (template a) (facemask a) w = (Inr tf, wa)"
    and r1: "(case tf of (template_p, facemask_p) \<Rightarrow>
     then_do (output_checks env (infile a) (outfile a) (force a)) (\<lambda>outfile_p.
     then_do (temp_files env) (\<lambda>tmp.
     then_do (flirt_run env (estimate_inputs a template_p tmp)) (\<lambda>_.
     then_do (flirt_run env (warp_inputs a facemask_p tmp)) (\<lambda>_.
     then_do (load (infile a)) (\<lambda>infile_img.
     then_do (load (warped_mask tmp)) (\<lambda>warped_mask_img.
     then_do (lift (deface_multiply (dataobj infile_img) (dataobj warped_mask_img))) (\<lambda>outdata.
     then_do (to_filename (Nifti1Image outdata (affine infile_img) (header infile_img)) outfile_p) (\<lambda>_.
     then_do (cleanup a tmp) (\<lambda>_.
     ret warped_mask_img)))))))))) wa = (Inr img, w')"
    unfolding deface_image_def then_do_Inr by blast
  obtain t f where tf: "tf = (t, f)" by (cases tf)
  have wa: "wa = w" using ic by (rule initial_checks_world)
  from r1[unfolded tf prod.case wa then_do_Inr] obtain outp wb tmp w1 u2 w2 u3 w3 subj w4 mimg w5 outdata w6 u7 w7 u8 w8
    where oc: "output_checks env (infile a) (outfile a) (force a) w = (Inr outp, wb)"
      and tfs: "temp_files env wb = (Inr tmp, w1)"
      and fa: "flirt_run env (estimate_inputs a t tmp) w1 = (Inr u2, w2)"
      and fb: "flirt_run env (warp_inputs a f tmp) w2 = (Inr u3, w3)"
      and l1: "load (infile a) w3 = (Inr subj, w4)"
      and l2: "load (warped_mask tmp) w4 = (Inr mimg, w5)"
      and mul: "lift (deface_multiply (dataobj subj) (dataobj mimg)) w5 = (Inr outdata, w6)"
      and sv: "to_filename (Nifti1Image outdata (affine subj) (header subj)) outp w6 = (Inr u7, w7)"
      and cl: "cleanup a tmp w7 = (Inr u8, w8)"
      and rt: "ret mimg w8 = (Inr img, w')"
    by blast
  have wb: "wb = w" using oc by (rule output_checks_world)
  have mi: "mimg = img" and w8: "w8 = w'" using rt by (simp_all add: ret_def)
  have w4: "w4 = log_event (Loaded (infile a) subj) w3" and f1: "files w3 (infile a) = Some (Nifti subj)"
    using l1 by (simp_all add: load_Inr)
  have w5: "w5 = log_event (Loaded (warped_mask tmp) img) w4" and f2: "files w4 (warped_mask tmp) = Some (Nifti img)"
    using l2 by (simp_all add: load_Inr mi)
  have w6: "w6 = w5" and m: "deface_multiply (dataobj subj) (dataobj img) = Inr outdata"
    using mul by (simp_all add: lift_def mi)
  have w7: "w7 = w3\<lparr>files := (files w3)(outp \<mapsto> Nifti (Nifti1Image outdata (affine subj) (header subj))),
           trace := trace w3 @ [Loaded (infile a) subj, Loaded (warped_mask tmp) img,
                                Saved outp (Nifti1Image outdata (affine subj) (header subj))]\<rparr>"
    using sv by (simp add: to_filename_def w6 w5 w4 log_event_def)
  have f2': "files w3 (warped_mask tmp) = Some (Nifti img)" using f2 by (simp add: w4 log_event_def)
  show ?thesis
    using ic oc tfs fa fb f1 f2' m cl unfolding tf wa wb w7 w8 by (intro exI conjI) auto
qed

lemma saved_append: "saved (xs @ ys) = saved xs @ saved ys"
  by (induction xs rule: saved.induct) simp_all

lemma deface_image_success:
  assumes "deface_image env a w = (Inr img, w')"
  obtains t f tmp w1 and w3 :: "('a::times, 'g, 'h) world" and subj outdata p1 p2 p3 p4 where
     "fst (initial_checks env (template a) (facemask a) w) = Inr (t, f)"
     "fst (output_checks env (infile a) (outfile a) (force a) w) = Inr (output_path env (infile a) (outfile a))"
     "temp_files env w = (Inr tmp, w1)"
     "files w3 (infile a) = Some (Nifti subj)"
     "files w3 (warped_mask tmp) = Some (Nifti img)"
     "deface_multiply (dataobj subj) (dataobj img) = Inr outdata"
     "files w' =
       (if nocleanup a
        then (files w3)(output_path env (infile a) (outfile a) \<mapsto>
                           Nifti (Nifti1Image outdata (affine subj) (header subj)))
        else ((files w3)(output_path env (infile a) (outfile a) \<mapsto>
                           Nifti (Nifti1Image outdata (affine subj) (header subj))))
               (warped_mask tmp := None, template_reg tmp := None, template_reg_mat tmp := None))"
     "trace w' = trace w @
        [Created p1, Created p2, Created p3, Created p4,
         FlirtRun (estimate_inputs a t tmp), FlirtRun (warp_inputs a f tmp),
         Loaded (infile a) subj, Loaded (warped_mask tmp) img,
         Saved (output_path env (infile a) (outfile a)) (Nifti1Image outdata (affine subj) (header subj))] @
        (if nocleanup a then []
         else [Removed (warped_mask tmp), Removed (template_reg tmp), Removed (template_reg_mat tmp)])"
proof -
  from deface_image_Inr[OF assms] obtain t f outp tmp w1 w2 w3 subj outdata where
    ic: "initial_checks env (template a) (facemask a) w = (Inr (t, f), w)" and
    oc: "output_checks env (infile a) (outfile a) (force a) w = (Inr outp, w)" and
    tfs: "temp_files env w = (Inr tmp, w1)" and
    fa: "flirt_run env (estimate_inputs a t tmp) w1 = (Inr (), w2)" and
    fb: "flirt_run env (warp_inputs a f tmp) w2 = (Inr (), w3)" and
    f1: "files w3 (infile a) = Some (Nifti subj)" and
    f2: "files w3 (warped_mask tmp) = Some (Nifti img)" and
    m: "deface_multiply (dataobj subj) (dataobj img) = Inr outdata" and
    cl: "cleanup a tmp
       (w3\<lparr>files := (files w3)(outp \<mapsto> Nifti (Nifti1Image outdata (affine subj) (header subj))),
           trace := trace w3 @ [Loaded (infile a) subj, Loaded (warped_mask tmp) img,
                                Saved outp (Nifti1Image outdata (affine subj) (header subj))]\<rparr>)
       = (Inr (), w')"
    by blast
  have outp: "outp = output_path env (infile a) (outfile a)"
    using oc by (auto simp: output_checks_def Let_def split: if_splits)
  from temp_files_Inr[OF tfs] obtain p1 p2 p3 p4 where
    t1: "trace w1 = trace w @ [Created p1, Created p2, Created p3, Created p4]" by blast
  have t3: "trace w3 = trace w @ [Created p1, Created p2, Created p3, Created p4,
         FlirtRun (estimate_inputs a t tmp), FlirtRun (warp_inputs a f tmp)]"
    using flirt_run_trace[OF fa] flirt_run_trace[OF fb] t1 by simp
  have ic': "fst (initial_checks env (template a) (facemask a) w) = Inr (t, f)" using ic by simp
  have oc': "fst (output_checks env (infile a) (outfile a) (force a) w) =
             Inr (output_path env (infile a) (outfile a))" using oc outp by simp
  have fs: "files w' =
       (if nocleanup a
        then (files w3)(output_path env (infile a) (outfile a) \<mapsto>
                           Nifti (Nifti1Image outdata (affine subj) (header subj)))
        else ((files w3)(output_path env (infile a) (outfile a) \<mapsto>
                           Nifti (Nifti1Image outdata (affine subj) (header subj))))
               (warped_mask tmp := None, template_reg tmp := None, template_reg_mat tmp := None))"
    using cleanup_Inr[OF cl] outp by (auto split: if_splits)
  have tr: "trace w' = trace w @
        [Created p1, Created p2, Created p3, Created p4,
         FlirtRun (estimate_inputs a t tmp), FlirtRun (warp_inputs a f tmp),
         Loaded (infile a) subj, Loaded (warped_mask tmp) img,
         Saved (output_path env (infile a) (outfile a)) (Nifti1Image outdata (affine subj) (header subj))] @
        (if nocleanup a then []
         else [Removed (warped_mask tmp), Removed (template_reg tmp), Removed (template_reg_mat tmp)])"
    using cleanup_Inr[OF cl] outp t3 by (auto split: if_splits)
  show thesis by (rule that[OF ic' oc' tfs f1 f2 m fs tr])
qed

lemma apply_one_Inr:
  "apply_one env m p w = (Inr u, w') \<longleftrightarrow>
     (\<exists>c outdata. files w p = Some (Nifti c) \<and>
        apply_multiply (dataobj c) (dataobj m) = Inr outdata \<and>
        files w (defaced_name env p) = None \<and>
        w' = w\<lparr>files := (files w)(defaced_name env p \<mapsto>
                              Nifti (Nifti1Image outdata (affine c) (header c))),
               trace := trace w @ [Loaded p c,
                          Saved (defaced_name env p) (Nifti1Image outdata (affine c) (header c))]\<rparr>)"
  by (auto simp: apply_one_def then_do_Inr load_Inr lift_def output_checks_def Let_def
      output_path_def to_filename_def log_event_def split: if_splits)

lemma apply_one_Inl:
  assumes "apply_one env m p w = (Inl e, w')"
  shows "files w' = files w \<and> (trace w' = trace w \<or> (\<exists>c. trace w' = trace w @ [Loaded p c]))"
  using assms
  by (auto simp: apply_one_def then_do_Inl load_Inr lift_def output_checks_def Let_def
      output_path_def to_filename_def log_event_def dest: load_Inl split: if_splits)

lemma apply_all_append:
  "apply_all env m (ps @ qs) w = then_do (apply_all env m ps) (\<lambda>_. apply_all env m qs) w"
  by (induction ps arbitrary: w) (auto simp: then_do_def ret_def split: prod.splits sum.splits)

lemma apply_all_success:
  assumes "apply_all env m ps w = (Inr u, w')"
  shows "(\<exists>es. trace w' = trace w @ es \<and> map fst (loaded es) = ps \<and>
               map fst (saved es) = map (defaced_name env) ps) \<and>
         (\<forall>p. files w p \<noteq> None \<longrightarrow> files w' p = files w p) \<and>
         (\<forall>p\<in>set ps. \<exists>img. files w' (defaced_name env p) = Some (Nifti img))"
  using assms
proof (induction ps arbitrary: w)
  case Nil
  then show ?case by (simp add: ret_def)
next
  case (Cons p ps)
  from Cons.prems obtain v wa where one: "apply_one env m p w = (Inr v, wa)"
    and rest: "apply_all env m ps wa = (Inr u, w')"
    by (auto simp: then_do_Inr)
  from one obtain c outdata where none: "files w (defaced_name env p) = None"
    and fa: "files wa = (files w)(defaced_name env p \<mapsto> Nifti (Nifti1Image outdata (affine c) (header c)))"
    and ta: "trace wa = trace w @ [Loaded p c,
                          Saved (defaced_name env p) (Nifti1Image outdata (affine c) (header c))]"
    by (auto simp: apply_one_Inr)
  from Cons.IH[OF rest] obtain es where es: "trace w' = trace wa @ es" "map fst (loaded es) = ps"
      "map fst (saved es) = map (defaced_name env) ps"
    and keep: "\<forall>q. files wa q \<noteq> None \<longrightarrow> files w' q = files wa q"
    and outs: "\<forall>q\<in>set ps. \<exists>img. files w' (defaced_name env q) = Some (Nifti img)"
    by blast
  have 1: "\<exists>es'. trace w' = trace w @ es' \<and> map fst (loaded es') = p # ps \<and>
               map fst (saved es') = map (defaced_name env) (p # ps)"
    using es ta by (intro exI[of _ "[Loaded p c,
                          Saved (defaced_name env p) (Nifti1Image outdata (affine c) (header c))] @ es"])
      simp
  have 2: "\<forall>q. files w q \<noteq> None \<longrightarrow> files w' q = files w q"
    using keep fa none by (metis fun_upd_apply)
  have "files w' (defaced_name env p) = Some (Nifti (Nifti1Image outdata (affine c) (header c)))"
    using keep fa by simp
  then have 3: "\<forall>q\<in>set (p # ps). \<exists>img. files w' (defaced_name env q) = Some (Nifti img)"
    using outs by auto
  show ?case using 1 2 3 by blast
qed




section \<open>Example runs\<close>




lemma temp_files_fail0: "temp_files env_fail world0 = (Inr tmp0, snd (temp_files env_fail world0))"
proof -
  have "fst (temp_files env_fail world0) = Inr tmp0" by code_simp
  then show ?thesis by (simp add: prod_eq_iff)
qed

lemma run_force: "deface_image env0 args_force world_rerun =
    (Inr mask_img0, snd (deface_image env0 args_force world_rerun))"
proof -
  have "fst (deface_image env0 args_force world_rerun) = Inr mask_img0" by code_simp
  then show ?thesis by (simp add: prod_eq_iff)
qed

lemma temp_files_rerun: "temp_files env0 world_rerun = (Inr tmp0, snd (temp_files env0 world_rerun))"
proof -
  have "fst (temp_files env0 world_rerun) = Inr tmp0" by code_simp
  then show ?thesis by (simp add: prod_eq_iff)
qed

lemma batch_pd0:
  "apply_all env0 mask_img0 [''pd''] world0 = (Inr (), snd (apply_all env0 mask_img0 [''pd''] world0))"
proof -
  have "fst (apply_all env0 mask_img0 [''pd''] world0) = Inr ()" by code_simp
  then show ?thesis by (simp add: prod_eq_iff)
qed

lemma batch_bold0:
  "apply_one env0 mask_img0 ''bold'' (snd (apply_all env0 mask_img0 [''pd''] world0)) =
     (Inl ValueError, snd (apply_one env0 mask_img0 ''bold'' (snd (apply_all env0 mask_img0 [''pd''] world0))))"
proof -
  have "fst (apply_one env0 mask_img0 ''bold'' (snd (apply_all env0 mask_img0 [''pd''] world0))) = Inl ValueError"
    by code_simp
  then show ?thesis by (simp add: prod_eq_iff)
qed

section \<open>The defacing run and the batch\<close>






text \<open>
  C7. When the resolved output path exists and \<open>force\<close> is not set, the run raises
  and the world is the one it started from: no file was created and the engine was not
  run. When the path exists, \<open>force\<close> is set and the run succeeds, the run saves
  exactly one image, to that path, and the path holds that image afterwards; the cleanup
  must not be about to remove that very path, which is the case when the output is not
  one of the temporary names of the run.
\<close>

theorem overwrite_policy:
  "(files w (output_path env (infile a) (outfile a)) \<noteq> None \<and> \<not> force a \<longrightarrow>
      (\<exists>e. deface_image env a w = (Inl e, w)))
   \<and> (files w (output_path env (infile a) (outfile a)) \<noteq> None \<and> force a \<and>
      deface_image env a w = (Inr img, w') \<and> temp_files env w = (Inr tmp, w1) \<and>
      (nocleanup a \<or> output_path env (infile a) (outfile a) \<notin>
                        {warped_mask tmp, template_reg tmp, template_reg_mat tmp}) \<longrightarrow>
      (\<exists>out_img. saved (new_events w w') = [(output_path env (infile a) (outfile a), out_img)] \<and>
                 files w' (output_path env (infile a) (outfile a)) = Some (Nifti out_img)))"
proof (intro conjI impI)
  assume h: "files w (output_path env (infile a) (outfile a)) \<noteq> None \<and> \<not> force a"
  then have oc: "output_checks env (infile a) (outfile a) (force a) w = (Inl OutputExistsError, w)"
    by (simp add: output_checks_def Let_def)
  obtain r where ic: "initial_checks env (template a) (facemask a) w = (r, w)"
    using initial_checks_world by (metis prod.collapse)
  show "\<exists>e. deface_image env a w = (Inl e, w)"
  proof (cases r)
    case (Inl e)
    then show ?thesis using ic by (auto simp: deface_image_def then_do_def)
  next
    case (Inr tf)
    then show ?thesis using ic oc by (cases tf) (auto simp: deface_image_def then_do_def)
  qed
next
  assume h: "files w (output_path env (infile a) (outfile a)) \<noteq> None \<and> force a \<and>
      deface_image env a w = (Inr img, w') \<and> temp_files env w = (Inr tmp, w1) \<and>
      (nocleanup a \<or> output_path env (infile a) (outfile a) \<notin>
                        {warped_mask tmp, template_reg tmp, template_reg_mat tmp})"
  then have run: "deface_image env a w = (Inr img, w')" and tfs: "temp_files env w = (Inr tmp, w1)"
    and nc: "nocleanup a \<or> output_path env (infile a) (outfile a) \<notin>
                        {warped_mask tmp, template_reg tmp, template_reg_mat tmp}" by simp_all
  show "\<exists>out_img. saved (new_events w w') = [(output_path env (infile a) (outfile a), out_img)] \<and>
                 files w' (output_path env (infile a) (outfile a)) = Some (Nifti out_img)"
  proof (rule deface_image_success[OF run])
    fix t f tmp' w1' and w3 :: "('a, 'b, 'c) world" and subj outdata p1 p2 p3 p4
    assume tfs': "temp_files env w = (Inr tmp', w1')"
      and fs: "files w' =
       (if nocleanup a
        then (files w3)(output_path env (infile a) (outfile a) \<mapsto>
                           Nifti (Nifti1Image outdata (affine subj) (header subj)))
        else ((files w3)(output_path env (infile a) (outfile a) \<mapsto>
                           Nifti (Nifti1Image outdata (affine subj) (header subj))))
               (warped_mask tmp' := None, template_reg tmp' := None, template_reg_mat tmp' := None))"
      and tr: "trace w' = trace w @
        [Created p1, Created p2, Created p3, Created p4,
         FlirtRun (estimate_inputs a t tmp'), FlirtRun (warp_inputs a f tmp'),
         Loaded (infile a) subj, Loaded (warped_mask tmp') img,
         Saved (output_path env (infile a) (outfile a)) (Nifti1Image outdata (affine subj) (header subj))] @
        (if nocleanup a then []
         else [Removed (warped_mask tmp'), Removed (template_reg tmp'), Removed (template_reg_mat tmp')])"
    have tmp': "tmp' = tmp" using tfs tfs' by simp
    have "files w' (output_path env (infile a) (outfile a)) =
            Some (Nifti (Nifti1Image outdata (affine subj) (header subj)))"
      using fs nc unfolding tmp' by auto
    moreover have "saved (new_events w w') =
        [(output_path env (infile a) (outfile a), Nifti1Image outdata (affine subj) (header subj))]"
      using tr by (simp add: new_events_def)
    ultimately show ?thesis by blast
  qed
qed

theorem overwrite_policy_witness:
  "files world_rerun (output_path env0 (infile args0) (outfile args0)) \<noteq> None \<and> \<not> force args0 \<and>
   (\<exists>e. deface_image env0 args0 world_rerun = (Inl e, world_rerun)) \<and>
   files world_rerun (output_path env0 (infile args_force) (outfile args_force)) \<noteq> None \<and>
   force args_force \<and>
   deface_image env0 args_force world_rerun =
     (Inr mask_img0, snd (deface_image env0 args_force world_rerun)) \<and>
   output_path env0 (infile args_force) (outfile args_force) \<notin>
     {warped_mask tmp0, template_reg tmp0, template_reg_mat tmp0} \<and>
   (\<exists>out_img.
      saved (new_events world_rerun (snd (deface_image env0 args_force world_rerun))) =
        [(output_path env0 (infile args_force) (outfile args_force), out_img)] \<and>
      files (snd (deface_image env0 args_force world_rerun))
        (output_path env0 (infile args_force) (outfile args_force)) = Some (Nifti out_img))"
proof -
  have a: "files world_rerun (output_path env0 (infile args0) (outfile args0)) \<noteq> None"
    by (simp add: world_rerun_def output_path_def args0_def env0_def)
  have b: "\<not> force args0" by (simp add: args0_def)
  have c: "files world_rerun (output_path env0 (infile args_force) (outfile args_force)) \<noteq> None"
    by (simp add: world_rerun_def output_path_def args0_def args_force_def env0_def)
  have d: "force args_force" by (simp add: args_force_def)
  have e: "output_path env0 (infile args_force) (outfile args_force) \<notin>
     {warped_mask tmp0, template_reg tmp0, template_reg_mat tmp0}"
    by (simp add: output_path_def args0_def args_force_def env0_def tmp0_def)
  note t1 = overwrite_policy[of world_rerun env0 args0]
  note t2 = overwrite_policy[of world_rerun env0 args_force mask_img0
      "snd (deface_image env0 args_force world_rerun)" tmp0 "snd (temp_files env0 world_rerun)"]
  from t1 a b have 1: "\<exists>e. deface_image env0 args0 world_rerun = (Inl e, world_rerun)" by blast
  from t2 c d e run_force temp_files_rerun have 2: "\<exists>out_img.
      saved (new_events world_rerun (snd (deface_image env0 args_force world_rerun))) =
        [(output_path env0 (infile args_force) (outfile args_force), out_img)] \<and>
      files (snd (deface_image env0 args_force world_rerun))
        (output_path env0 (infile args_force) (outfile args_force)) = Some (Nifti out_img)" by blast
  show ?thesis using a b c d e run_force 1 2 by blast
qed

text \<open>
  C8. A batch that succeeds loads the paths in the order given and saves their outputs in
  that order. When the batch has processed \<open>ps\<close> and the step for the next path
  \<open>q\<close> raises, the batch over \<open>ps\<close>, \<open>q\<close> and any further paths raises the same
  error in the world left by that step: nothing after \<open>q\<close> is touched, the failed step
  wrote no file, and the outputs of \<open>ps\<close> are on disk.
\<close>

theorem batch_in_order_and_abort:
  "(apply_all env m ps w = (Inr u, w') \<longrightarrow>
      map fst (loaded (new_events w w')) = ps \<and>
      map fst (saved (new_events w w')) = map (defaced_name env) ps)
   \<and> (apply_all env m ps w = (Inr u, w1) \<and> apply_one env m q w1 = (Inl e, w2) \<longrightarrow>
      apply_all env m (ps @ q # rs) w = (Inl e, w2) \<and>
      files w2 = files w1 \<and>
      map fst (saved (new_events w w2)) = map (defaced_name env) ps \<and>
      (\<forall>p\<in>set ps. \<exists>img. files w2 (defaced_name env p) = Some (Nifti img)))"
proof (intro conjI impI)
  assume run: "apply_all env m ps w = (Inr u, w')"
  from apply_all_success[OF run] obtain es where "trace w' = trace w @ es"
    "map fst (loaded es) = ps" "map fst (saved es) = map (defaced_name env) ps" by blast
  then show "map fst (loaded (new_events w w')) = ps"
    and "map fst (saved (new_events w w')) = map (defaced_name env) ps"
    by (simp_all add: new_events_def)
next
  assume h: "apply_all env m ps w = (Inr u, w1) \<and> apply_one env m q w1 = (Inl e, w2)"
  then have run: "apply_all env m ps w = (Inr u, w1)" and bad: "apply_one env m q w1 = (Inl e, w2)"
    by simp_all
  show "apply_all env m (ps @ q # rs) w = (Inl e, w2)"
    by (simp add: apply_all_append then_do_def run bad)
  from apply_one_Inl[OF bad] have f: "files w2 = files w1"
    and t: "trace w2 = trace w1 \<or> (\<exists>c. trace w2 = trace w1 @ [Loaded q c])" by simp_all
  show "files w2 = files w1" by (rule f)
  from apply_all_success[OF run] obtain es where es: "trace w1 = trace w @ es"
    "map fst (saved es) = map (defaced_name env) ps"
    and outs: "\<forall>p\<in>set ps. \<exists>img. files w1 (defaced_name env p) = Some (Nifti img)" by blast
  show "map fst (saved (new_events w w2)) = map (defaced_name env) ps"
    using t es by (auto simp: new_events_def saved_append)
  show "\<forall>p\<in>set ps. \<exists>img. files w2 (defaced_name env p) = Some (Nifti img)"
    using outs f by simp
qed

theorem batch_in_order_and_abort_witness:
  "apply_all env0 mask_img0 [''pd''] world0 = (Inr (), snd (apply_all env0 mask_img0 [''pd''] world0)) \<and>
   apply_one env0 mask_img0 ''bold'' (snd (apply_all env0 mask_img0 [''pd''] world0)) =
     (Inl ValueError, snd (apply_one env0 mask_img0 ''bold'' (snd (apply_all env0 mask_img0 [''pd''] world0)))) \<and>
   map fst (loaded (new_events world0 (snd (apply_all env0 mask_img0 [''pd''] world0)))) = [''pd''] \<and>
   fst (apply_all env0 mask_img0 ([''pd''] @ ''bold'' # [''sub'']) world0) = Inl ValueError \<and>
   (\<exists>img. files (snd (apply_one env0 mask_img0 ''bold'' (snd (apply_all env0 mask_img0 [''pd''] world0))))
             (defaced_name env0 ''pd'') = Some (Nifti img))"
proof -
  note t = batch_in_order_and_abort[of env0 mask_img0 "[''pd'']" world0 "()"
      "snd (apply_all env0 mask_img0 [''pd''] world0)"
      "snd (apply_all env0 mask_img0 [''pd''] world0)" "''bold''" ValueError
      "snd (apply_one env0 mask_img0 ''bold'' (snd (apply_all env0 mask_img0 [''pd''] world0)))"
      "[''sub'']"]
  from t batch_pd0 have 1:
    "map fst (loaded (new_events world0 (snd (apply_all env0 mask_img0 [''pd''] world0)))) = [''pd'']"
    by blast
  from t batch_pd0 batch_bold0 have 2:
    "apply_all env0 mask_img0 ([''pd''] @ ''bold'' # [''sub'']) world0 =
       (Inl ValueError, snd (apply_one env0 mask_img0 ''bold'' (snd (apply_all env0 mask_img0 [''pd''] world0))))"
    and 3: "\<forall>p\<in>set [''pd'']. \<exists>img.
        files (snd (apply_one env0 mask_img0 ''bold'' (snd (apply_all env0 mask_img0 [''pd''] world0))))
             (defaced_name env0 p) = Some (Nifti img)"
    by blast+
  have ab: "fst (apply_all env0 mask_img0 ([''pd''] @ ''bold'' # [''sub'']) world0) = Inl ValueError"
    using 2 by simp
  have kept: "\<exists>img. files (snd (apply_one env0 mask_img0 ''bold'' (snd (apply_all env0 mask_img0 [''pd''] world0))))
             (defaced_name env0 ''pd'') = Some (Nifti img)" using 3 by simp
  show ?thesis using batch_pd0 batch_bold0 1 ab kept by blast
qed

text \<open>
  C9. When the checks pass, the temporary files are allocated and the engine fails on the
  inputs of the first run, \<open>deface_image\<close> raises RegistrationError; the engine was
  run once, with those inputs, no image was saved, and every path holds what it held
  before the run or an empty file of \<open>mkstemp\<close>.
\<close>

theorem estimation_failure_aborts:
  assumes "fst (initial_checks env (template a) (facemask a) w) = Inr (t, f)"
    and "fst (output_checks env (infile a) (outfile a) (force a) w) = Inr outp"
    and "temp_files env w = (Inr tmp, w1)"
    and "flirt_engine env (estimate_inputs a t tmp) (files w1) = None"
  shows "\<exists>w'. deface_image env a w = (Inl RegistrationError, w') \<and>
           flirt_runs (new_events w w') = [estimate_inputs a t tmp] \<and>
           saved (new_events w w') = [] \<and>
           (\<forall>p. files w' p = files w p \<or> files w' p = Some (Blob []))"
proof -
  have ic: "initial_checks env (template a) (facemask a) w = (Inr (t, f), w)"
    using assms(1) initial_checks_world by (metis prod.collapse)
  have oc: "output_checks env (infile a) (outfile a) (force a) w = (Inr outp, w)"
    using assms(2) output_checks_world by (metis prod.collapse)
  let ?w' = "log_event (FlirtRun (estimate_inputs a t tmp)) w1"
  have fr: "flirt_run env (estimate_inputs a t tmp) w1 = (Inl RegistrationError, ?w')"
    using assms(4) by (simp add: flirt_run_def)
  have run: "deface_image env a w = (Inl RegistrationError, ?w')"
    unfolding deface_image_def by (simp add: then_do_def ic oc assms(3) fr)
  from temp_files_Inr[OF assms(3)] obtain p1 p2 p3 p4 where
    t1: "trace w1 = trace w @ [Created p1, Created p2, Created p3, Created p4]" by blast
  have ne: "new_events w ?w' = [Created p1, Created p2, Created p3, Created p4,
                                FlirtRun (estimate_inputs a t tmp)]"
    using t1 by (simp add: new_events_def log_event_def)
  have fl: "files ?w' p = files w p \<or> files ?w' p = Some (Blob [])" for p
    using temp_files_placeholders(1)[OF assms(3), of p] by (simp add: log_event_def)
  show ?thesis using run ne fl by (intro exI[of _ ?w']) simp
qed

theorem estimation_failure_aborts_witness:
  "fst (initial_checks env_fail (template args0) (facemask args0) world0) = Inr (''tpl'', ''fm'') \<and>
   fst (output_checks env_fail (infile args0) (outfile args0) (force args0) world0) = Inr ''sub_defaced'' \<and>
   temp_files env_fail world0 = (Inr tmp0, snd (temp_files env_fail world0)) \<and>
   flirt_engine env_fail (estimate_inputs args0 ''tpl'' tmp0) (files (snd (temp_files env_fail world0))) = None \<and>
   (\<exists>w'. deface_image env_fail args0 world0 = (Inl RegistrationError, w') \<and>
          flirt_runs (new_events world0 w') = [estimate_inputs args0 ''tpl'' tmp0] \<and>
          saved (new_events world0 w') = [] \<and>
          (\<forall>p. files w' p = files world0 p \<or> files w' p = Some (Blob [])))"
proof -
  have a: "fst (initial_checks env_fail (template args0) (facemask args0) world0) = Inr (''tpl'', ''fm'')"
    by code_simp
  have b: "fst (output_checks env_fail (infile args0) (outfile args0) (force args0) world0) = Inr ''sub_defaced''"
    by code_simp
  have d: "flirt_engine env_fail (estimate_inputs args0 ''tpl'' tmp0) (files (snd (temp_files env_fail world0))) = None"
    by (simp add: env_fail_def)
  show ?thesis
    using estimation_failure_aborts[OF a b temp_files_fail0 d] a b temp_files_fail0 d by blast
qed



end
